theory Spec2Isabelle
  imports Complex_Main "HOL-Library.Multiset" "HOL-Library.Char_ord" "HOL-Library.List_Lexorder"
    "HOL-Library.Product_Lexorder"
begin

section \<open>Donation Tracker: the storage layer\<close>

text \<open>
  The program keeps its data in an SQLite file and reaches it through the C API: every
  operation of \<^verbatim>\<open>DonationTracker\<close> prepares one SQL statement, binds its parameters and
  steps it. The embedding keeps the three tables as lists of rows in rowid order and gives
  each SQL statement of \<^verbatim>\<open>main.cpp\<close> the meaning the engine gives it.

  Conventions of the embedding:
  \<^item> \<^verbatim>\<open>std::string\<close> is \<open>string\<close>; text is bound with \<^verbatim>\<open>c_str()\<close>, so strings are taken
    to hold no NUL character;
  \<^item> \<^verbatim>\<open>int\<close> identifiers are \<open>int\<close>: row identifiers start at 1 and grow by one, far from
    the 32-bit range;
  \<^item> the \<^verbatim>\<open>REAL\<close> amounts are values of a type parameter \<open>'a\<close>, finite as the amounts
    that the donation dialog admits (0.00 to 10000000.00): the platform says which number
    each of them is (\<open>real_value\<close>) and what the engine's \<^verbatim>\<open>SUM\<close> makes of a group of them
    (\<open>sql_sum\<close>), and \<^verbatim>\<open>QString::number(x, 'f', 2)\<close> prints the number (\<open>number_f\<close>);
  \<^item> what the library calls can report is the argument \<open>engine\<close> of each operation.
\<close>

subsection \<open>Rows and tables\<close>

record donor =
  donor_id :: int
  first_name :: string
  last_name :: string
  street :: string
  city :: string
  state :: string
  zip_code :: string
  country :: string
  phone :: string
  email :: string

record 'a donation =
  donation_id :: int
  don_donor_id :: int
  amount :: 'a
  date :: string
  payment_method :: string

text \<open>
  \<open>donors_seq\<close> and \<open>donations_seq\<close> are the rows of \<^verbatim>\<open>sqlite_sequence\<close> that
  \<^verbatim>\<open>AUTOINCREMENT\<close> maintains. \<open>foreign_keys\<close> is the connection's
  \<^verbatim>\<open>PRAGMA foreign_keys\<close> setting: the engine enforces \<^verbatim>\<open>FOREIGN KEY\<close> clauses, and so
  runs \<^verbatim>\<open>ON DELETE CASCADE\<close>, only on a connection that has switched it on.
\<close>

record 'a database =
  donors :: "donor list"
  donations :: "'a donation list"
  organization :: "(string \<times> string) option"
  donors_seq :: int
  donations_seq :: int
  foreign_keys :: bool

text \<open>
  The outcome of the library calls of one operation: \<open>PrepareError\<close> when
  \<^verbatim>\<open>sqlite3_prepare_v2\<close> does not return \<^verbatim>\<open>SQLITE_OK\<close>, \<open>StepError n\<close> when
  \<^verbatim>\<open>sqlite3_step\<close> reports an error after having delivered \<open>n\<close> rows.
\<close>

datatype engine = Healthy | PrepareError | StepError nat

fun fetched :: "engine \<Rightarrow> 'r list \<Rightarrow> 'r list" where
  "fetched Healthy rows = rows"
| "fetched PrepareError rows = []"
| "fetched (StepError n) rows = take n rows"

text \<open>
  What the operations take from the libraries and the machine: the engine's \<^verbatim>\<open>SUM\<close>
  aggregate over a group of \<^verbatim>\<open>REAL\<close> values (in row order), the number that a \<^verbatim>\<open>REAL\<close>
  value is, the text of \<^verbatim>\<open>QDate::currentDate().toString("MMMM d, yyyy")\<close>, and whether
  \<^verbatim>\<open>QFile::open(WriteOnly | Text)\<close> succeeds on a path.
\<close>

record 'a platform =
  sql_sum :: "'a list \<Rightarrow> 'a"
  real_value :: "'a \<Rightarrow> rat"
  current_date :: string
  can_open :: "string \<Rightarrow> bool"

definition donor_ids :: "'a database \<Rightarrow> int list" where
  "donor_ids db = map donor_id (donors db)"

definition next_rowid :: "int \<Rightarrow> int list \<Rightarrow> int" where
  "next_rowid seq ids = foldr max ids seq + 1"

definition empty_store :: "'a database" where
  "empty_store = \<lparr>donors = [], donations = [], organization = None,
     donors_seq = 0, donations_seq = 0, foreign_keys = False\<rparr>"

text \<open>
  The constructor: \<^verbatim>\<open>sqlite3_open\<close> followed by \<^verbatim>\<open>createTables\<close>. The tables of the file
  are kept (\<^verbatim>\<open>CREATE TABLE IF NOT EXISTS\<close>); the new connection has foreign-key enforcement
  off, the engine's default, and no statement of the program is a \<^verbatim>\<open>PRAGMA\<close>.
\<close>

definition DonationTracker :: "'a database \<Rightarrow> 'a database" where
  "DonationTracker file = file\<lparr>foreign_keys := False\<rparr>"

subsection \<open>Decimal text of an integer\<close>

definition digit_char :: "nat \<Rightarrow> char" where
  "digit_char n = ''0123456789'' ! n"

function dec_nat :: "nat \<Rightarrow> string" where
  "dec_nat n = (if n < 10 then [digit_char n] else dec_nat (n div 10) @ [digit_char (n mod 10)])"
  by pat_completeness auto
termination
  by (relation "measure id") auto

declare dec_nat.simps [simp del]

text \<open>\<^verbatim>\<open>std::to_string(int)\<close> and \<^verbatim>\<open>QString::number(int)\<close>.\<close>

definition to_string :: "int \<Rightarrow> string" where
  "to_string i = (if i < 0 then CHR ''-'' # dec_nat (nat (- i)) else dec_nat (nat i))"

subsection \<open>Fixed-point text of a number\<close>

text \<open>The \<open>p\<close> low decimal digits of \<open>m\<close>, leading zeros kept.\<close>

fun frac_digits :: "nat \<Rightarrow> nat \<Rightarrow> string" where
  "frac_digits 0 m = []"
| "frac_digits (Suc p) m = frac_digits p (m div 10) @ [digit_char (m mod 10)]"

text \<open>
  \<^verbatim>\<open>QString::number(x, 'f', prec)\<close> for the number \<open>x\<close> that a finite \<^verbatim>\<open>double\<close> is: a minus
  sign for a negative number, then the magnitude rounded to \<open>prec\<close> decimals (a half
  rounds up), written as its integer part, a point and \<open>prec\<close> digits; no point when
  \<open>prec\<close> is 0.
\<close>

definition number_f :: "rat \<Rightarrow> nat \<Rightarrow> string" where
  "number_f x prec =
     (let m = nat \<lfloor>\<bar>x\<bar> * 10 ^ prec + 1 / 2\<rfloor> in
      (if x < 0 then ''-'' else []) @ dec_nat (m div 10 ^ prec) @
      (if prec = 0 then [] else ''.'' @ frac_digits prec (m mod 10 ^ prec)))"

subsection \<open>Donor operations\<close>

text \<open>\<^verbatim>\<open>INSERT INTO donors (...) VALUES (?, ..., ?)\<close>: the row gets the next rowid.\<close>

definition addDonor :: "engine \<Rightarrow> 'a database \<Rightarrow> donor \<Rightarrow> bool \<times> 'a database" where
  "addDonor e db vals =
     (if e = Healthy then
        (let n = next_rowid (donors_seq db) (donor_ids db)
         in (True, db\<lparr>donors := donors db @ [vals\<lparr>donor_id := n\<rparr>], donors_seq := n\<rparr>))
      else (False, db))"

text \<open>
  \<^verbatim>\<open>UPDATE donors SET first_name=?, ... WHERE id=?\<close>: every row with that id takes the
  new values. The statement is stepped once and the function returns \<^verbatim>\<open>true\<close> when the
  step returns \<^verbatim>\<open>SQLITE_DONE\<close>, which it does whatever the number of rows changed.
\<close>

definition updateDonor :: "engine \<Rightarrow> 'a database \<Rightarrow> int \<Rightarrow> donor \<Rightarrow> bool \<times> 'a database" where
  "updateDonor e db i vals =
     (if e = Healthy then
        (True, db\<lparr>donors := map (\<lambda>d. if donor_id d = i then vals\<lparr>donor_id := i\<rparr> else d)
                               (donors db)\<rparr>)
      else (False, db))"

text \<open>
  \<^verbatim>\<open>DELETE FROM donors WHERE id=?\<close>. The donations of a deleted donor go with it when the
  connection enforces foreign keys; otherwise the \<^verbatim>\<open>donations\<close> table is not touched.
\<close>

definition deleteDonor :: "engine \<Rightarrow> 'a database \<Rightarrow> int \<Rightarrow> bool \<times> 'a database" where
  "deleteDonor e db i =
     (if e = Healthy then
        (True, db\<lparr>donors := filter (\<lambda>d. donor_id d \<noteq> i) (donors db),
                  donations := (if foreign_keys db \<and> i \<in> set (donor_ids db)
                                then filter (\<lambda>x. don_donor_id x \<noteq> i) (donations db)
                                else donations db)\<rparr>)
      else (False, db))"

subsection \<open>Donation operations\<close>

text \<open>
  \<^verbatim>\<open>INSERT INTO donations (donor_id, amount, date, payment_method) VALUES (?, ?, ?, ?)\<close>.
  The function itself looks at no donor. On a connection that enforces foreign keys the
  engine rejects a row whose \<^verbatim>\<open>donor_id\<close> has no parent, and the step fails.
\<close>

definition addDonation ::
  "engine \<Rightarrow> 'a database \<Rightarrow> int \<Rightarrow> 'a \<Rightarrow> string \<Rightarrow> string \<Rightarrow> bool \<times> 'a database" where
  "addDonation e db donorId amt dt paymentMethod =
     (if e = Healthy \<and> \<not> (foreign_keys db \<and> donorId \<notin> set (donor_ids db)) then
        (let n = next_rowid (donations_seq db) (map donation_id (donations db))
         in (True, db\<lparr>donations := donations db @
                        [\<lparr>donation_id = n, don_donor_id = donorId, amount = amt, date = dt,
                          payment_method = paymentMethod\<rparr>],
                      donations_seq := n\<rparr>))
      else (False, db))"

text \<open>\<^verbatim>\<open>DELETE FROM donations WHERE id=?\<close>.\<close>

definition deleteDonation :: "engine \<Rightarrow> 'a database \<Rightarrow> int \<Rightarrow> bool \<times> 'a database" where
  "deleteDonation e db i =
     (if e = Healthy then
        (True, db\<lparr>donations := filter (\<lambda>x. donation_id x \<noteq> i) (donations db)\<rparr>)
      else (False, db))"

subsection \<open>Organization\<close>

text \<open>\<^verbatim>\<open>SELECT name, address FROM organization WHERE id=1\<close>; \<open>None\<close> is the return value
  \<^verbatim>\<open>false\<close>, which leaves the two output strings as the caller made them.\<close>

definition getOrganizationDetails :: "engine \<Rightarrow> 'a database \<Rightarrow> (string \<times> string) option" where
  "getOrganizationDetails e db = (if e = Healthy then organization db else None)"

text \<open>\<^verbatim>\<open>INSERT OR REPLACE INTO organization (id, name, address) VALUES (1, ?, ?)\<close>.\<close>

definition setOrganizationDetails ::
  "engine \<Rightarrow> 'a database \<Rightarrow> string \<Rightarrow> string \<Rightarrow> bool \<times> 'a database" where
  "setOrganizationDetails e db name address =
     (if e = Healthy then (True, db\<lparr>organization := Some (name, address)\<rparr>) else (False, db))"

subsection \<open>Reading donors and donations\<close>

text \<open>\<^verbatim>\<open>SELECT ... FROM donors WHERE id=?\<close>, first row.\<close>

definition getDonorDetails :: "engine \<Rightarrow> 'a database \<Rightarrow> int \<Rightarrow> donor option" where
  "getDonorDetails e db i =
     (case fetched e (filter (\<lambda>d. donor_id d = i) (donors db)) of
        [] \<Rightarrow> None
      | d # _ \<Rightarrow> Some d)"

text \<open>\<^verbatim>\<open>SELECT id FROM donors ORDER BY id\<close>, every row pushed onto the vector.\<close>

definition getAllDonorIds :: "engine \<Rightarrow> 'a database \<Rightarrow> int list" where
  "getAllDonorIds e db = fetched e (sort (donor_ids db))"

text \<open>
  \<^verbatim>\<open>ORDER BY date DESC\<close>: later dates first, rows of equal date in the order of the table.
\<close>

definition order_by_date_desc :: "'a donation list \<Rightarrow> 'a donation list" where
  "order_by_date_desc xs = rev (sort_key date (rev xs))"

text \<open>
  \<^verbatim>\<open>SELECT id, donor_id, amount, date, payment_method FROM donations WHERE donor_id=?
  ORDER BY date DESC\<close>, one table row of five cells per result row. When the statement
  cannot be prepared the table keeps its rows.
\<close>

definition donation_row :: "'a platform \<Rightarrow> 'a donation \<Rightarrow> string list" where
  "donation_row pf x =
     [to_string (donation_id x), to_string (don_donor_id x),
      number_f (real_value pf (amount x)) 2, date x, payment_method x]"

definition getDonationsForDonor ::
  "'a platform \<Rightarrow> engine \<Rightarrow> 'a database \<Rightarrow> int \<Rightarrow> string list list \<Rightarrow> string list list" where
  "getDonationsForDonor pf e db donorId table =
     (if e = PrepareError then table
      else map (donation_row pf)
             (fetched e (order_by_date_desc (filter (\<lambda>x. don_donor_id x = donorId)
                                               (donations db)))))"

section \<open>Letter generation\<close>

text \<open>
  \<^verbatim>\<open>SELECT d.first_name, ..., d.country, SUM(don.amount) FROM donors d JOIN donations don
  ON d.id = don.donor_id WHERE SUBSTR(don.date, 1, 4) = ? GROUP BY d.id\<close>, the parameter
  bound to the text \<^verbatim>\<open>std::to_string(year)\<close>. \<open>id\<close> is the primary key of \<^verbatim>\<open>donors\<close>, so a
  group is one donor together with its joined donations, and a donor with no joined
  donation has no group.
\<close>

definition matching :: "int \<Rightarrow> 'a database \<Rightarrow> donor \<Rightarrow> 'a donation list" where
  "matching year db d =
     filter (\<lambda>x. don_donor_id x = donor_id d \<and> take 4 (date x) = to_string year) (donations db)"

definition letter_rows :: "'a platform \<Rightarrow> 'a database \<Rightarrow> int \<Rightarrow> (donor \<times> 'a) list" where
  "letter_rows pf db year =
     map (\<lambda>d. (d, sql_sum pf (map amount (matching year db d))))
       (filter (\<lambda>d. matching year db d \<noteq> []) (donors db))"

subsection \<open>Place markers\<close>

text \<open>
  \<^verbatim>\<open>QString::arg\<close> reads a string as plain characters and place markers: a marker is
  \<^verbatim>\<open>%\<close>, an optional \<^verbatim>\<open>L\<close>, and one or two decimal digits that give its number. A \<^verbatim>\<open>%\<close>
  that starts no marker is a plain character.
\<close>

definition is_digit :: "char \<Rightarrow> bool" where
  "is_digit c \<longleftrightarrow> c \<in> set ''0123456789''"

definition digit_value :: "char \<Rightarrow> nat" where
  "digit_value c = length (takeWhile (\<lambda>d. d \<noteq> c) ''0123456789'')"

datatype piece = Plain char | Marker bool nat string

text \<open>
  What follows a \<^verbatim>\<open>%\<close>: whether the marker has the \<^verbatim>\<open>L\<close>, its number, and how many
  characters after the \<^verbatim>\<open>%\<close> belong to it; \<open>None\<close> when no marker starts here.
\<close>

definition marker_at :: "string \<Rightarrow> (bool \<times> nat \<times> nat) option" where
  "marker_at s =
     (let loc = (take 1 s = ''L''); s1 = (if loc then drop 1 s else s);
          k = (if loc then 1 else 0)
      in case s1 of
           [] \<Rightarrow> None
         | d1 # s2 \<Rightarrow>
             if \<not> is_digit d1 then None
             else (case s2 of
                     [] \<Rightarrow> Some (loc, digit_value d1, k + 1)
                   | d2 # s3 \<Rightarrow>
                       if is_digit d2
                       then Some (loc, 10 * digit_value d1 + digit_value d2, k + 2)
                       else Some (loc, digit_value d1, k + 1)))"

function pieces :: "string \<Rightarrow> piece list" where
  "pieces [] = []"
| "pieces (c # s) =
     (if c = CHR ''%'' then
        (case marker_at s of
           None \<Rightarrow> Plain c # pieces s
         | Some m \<Rightarrow> Marker (fst m) (fst (snd m)) (c # take (snd (snd m)) s) #
                       pieces (drop (snd (snd m)) s))
      else Plain c # pieces s)"
  by pat_completeness auto
termination
  by (relation "measure length") auto

fun marker_numbers :: "piece list \<Rightarrow> nat list" where
  "marker_numbers [] = []"
| "marker_numbers (Plain c # ps) = marker_numbers ps"
| "marker_numbers (Marker loc n raw # ps) = n # marker_numbers ps"

text \<open>
  One \<^verbatim>\<open>arg\<close> call: every marker of the lowest number is replaced, one with the \<^verbatim>\<open>L\<close> by
  the locale's text of the argument and one without by its plain text; markers of other numbers
  stay as they are written, and a string without markers is returned unchanged.
\<close>

definition QString_arg :: "string \<Rightarrow> string \<Rightarrow> string \<Rightarrow> string" where
  "QString_arg tmpl a locale_a =
     (case marker_numbers (pieces tmpl) of
        [] \<Rightarrow> tmpl
      | n # ns \<Rightarrow>
          concat (map (\<lambda>p. case p of
                              Plain c \<Rightarrow> [c]
                            | Marker loc k raw \<Rightarrow>
                                if k = fold min ns n then (if loc then locale_a else a) else raw)
                    (pieces tmpl)))"

text \<open>
  \<^verbatim>\<open>QString("letters/%1_%2_%3_donation_letter.txt").arg(firstName).arg(lastName).arg(year)\<close>:
  three \<^verbatim>\<open>arg\<close> calls in a row, each on the result of the one before, so that a marker
  inside a name is filled by a later call. A string argument has one text; the locale's
  text of the year is taken to be its decimal text.
\<close>

definition fileName :: "string \<Rightarrow> string \<Rightarrow> int \<Rightarrow> string" where
  "fileName firstName lastName year =
     QString_arg
       (QString_arg
          (QString_arg ''letters/%1_%2_%3_donation_letter.txt'' firstName firstName)
          lastName lastName)
       (to_string year) (to_string year)"

definition nl :: string where
  "nl = [CHR 0x0A]"

definition letterText ::
  "'a platform \<Rightarrow> string \<Rightarrow> string \<Rightarrow> int \<Rightarrow> donor \<times> 'a \<Rightarrow> string" where
  "letterText pf orgName orgAddress year r =
     (let d = fst r; totalAmount = snd r in
      orgName @ nl @
      orgAddress @ nl @ nl @
      current_date pf @ nl @ nl @
      first_name d @ '' '' @ last_name d @ nl @
      street d @ nl @
      city d @ '', '' @ state d @ '' '' @ zip_code d @ nl @
      country d @ nl @ nl @
      ''Dear '' @ first_name d @ '','' @ nl @ nl @
      ''Thank you for your generous total donation of $'' @
      number_f (real_value pf totalAmount) 2 @
      '' to '' @ orgName @ '' in '' @ to_string year @ ''.'' @ nl @
      ''Your support makes a significant difference to our mission.'' @ nl @ nl @
      ''Sincerely,'' @ nl @
      orgName @ nl)"

text \<open>The file of a result row, and what is written to it.\<close>

definition row_file :: "int \<Rightarrow> donor \<times> 'a \<Rightarrow> string" where
  "row_file year r = fileName (first_name (fst r)) (last_name (fst r)) year"

definition row_letter ::
  "'a platform \<Rightarrow> string \<Rightarrow> string \<Rightarrow> int \<Rightarrow> donor \<times> 'a \<Rightarrow> string \<times> string" where
  "row_letter pf orgName orgAddress year r = (row_file year r, letterText pf orgName orgAddress year r)"

text \<open>
  The state of one run: the \<^verbatim>\<open>success\<close> flag, the files under \<^verbatim>\<open>letters/\<close> (path to
  content), and the files written so far, in the order of writing.
\<close>

record letters_run =
  success :: bool
  files :: "string \<rightharpoonup> string"
  written :: "(string \<times> string) list"

text \<open>
  The body of the \<^verbatim>\<open>while (sqlite3_step(stmt) == SQLITE_ROW)\<close> loop, once per row: a file
  that opens is truncated and written, a file that does not open clears \<^verbatim>\<open>success\<close>, and
  the loop goes on to the next row either way.
\<close>

fun write_letters ::
  "'a platform \<Rightarrow> string \<Rightarrow> string \<Rightarrow> int \<Rightarrow> (donor \<times> 'a) list \<Rightarrow> letters_run \<Rightarrow> letters_run" where
  "write_letters pf orgName orgAddress year [] s = s"
| "write_letters pf orgName orgAddress year (r # rs) s =
     (let name = fileName (first_name (fst r)) (last_name (fst r)) year in
      if can_open pf name
      then write_letters pf orgName orgAddress year rs
             (s\<lparr>files := (files s)(name \<mapsto> letterText pf orgName orgAddress year r),
                written := written s @ [(name, letterText pf orgName orgAddress year r)]\<rparr>)
      else write_letters pf orgName orgAddress year rs (s\<lparr>success := False\<rparr>))"

text \<open>
  \<open>e\<close> is the outcome of the aggregate query, \<open>e_org\<close> that of the query inside
  \<^verbatim>\<open>getOrganizationDetails\<close>, whose two output strings start empty.
\<close>

definition letterhead :: "engine \<Rightarrow> 'a database \<Rightarrow> string \<times> string" where
  "letterhead e_org db =
     (case getOrganizationDetails e_org db of None \<Rightarrow> ('''', '''') | Some p \<Rightarrow> p)"

definition generateDonationLetters ::
  "'a platform \<Rightarrow> engine \<Rightarrow> engine \<Rightarrow> 'a database \<Rightarrow> int \<Rightarrow> (string \<rightharpoonup> string) \<Rightarrow> letters_run" where
  "generateDonationLetters pf e e_org db year fs =
     (if e = PrepareError then \<lparr>success = False, files = fs, written = []\<rparr>
      else
        (let orgName = fst (letterhead e_org db); orgAddress = snd (letterhead e_org db)
         in write_letters pf orgName orgAddress year (fetched e (letter_rows pf db year))
              \<lparr>success = True, files = fs, written = []\<rparr>))"

section \<open>Search\<close>

text \<open>
  Text is UTF-8, a \<open>char\<close> is one byte of it. The engine folds the case of the ASCII
  letters only, in \<^verbatim>\<open>LOWER\<close> and in \<^verbatim>\<open>LIKE\<close>.
\<close>

definition to_lower_char :: "char \<Rightarrow> char" where
  "to_lower_char c =
     (if CHR ''A'' \<le> c \<and> c \<le> CHR ''Z'' then char_of (of_char c + (32::nat)) else c)"

text \<open>The engine's \<^verbatim>\<open>LOWER\<close> on a column.\<close>

definition LOWER :: "string \<Rightarrow> string" where
  "LOWER s = map to_lower_char s"

text \<open>
  \<^verbatim>\<open>QString::toLower\<close> on the search term, as it is on a term of ASCII characters.
  Qt folds the letters beyond ASCII as well; this function leaves their bytes as they
  are, so for a term with such a letter it is not the program's pattern.
\<close>

definition toLower :: "string \<Rightarrow> string" where
  "toLower s = map to_lower_char s"

text \<open>
  The rest of a column after one character whose first byte \<open>c\<close> has been read: a byte
  from \<^verbatim>\<open>0xC0\<close> on starts a character of several bytes, and the bytes \<^verbatim>\<open>0x80\<close> to \<^verbatim>\<open>0xBF\<close>
  that follow it belong to it.
\<close>

definition skip_utf8 :: "char \<Rightarrow> string \<Rightarrow> string" where
  "skip_utf8 c t =
     (if (192::nat) \<le> of_char c
      then dropWhile (\<lambda>b. (128::nat) \<le> of_char b \<and> of_char b < (192::nat)) t
      else t)"

text \<open>
  The engine's \<^verbatim>\<open>LIKE\<close> with no \<^verbatim>\<open>ESCAPE\<close> clause, pattern first: \<^verbatim>\<open>%\<close> stands for any
  run of characters, \<^verbatim>\<open>_\<close> for any one character, and any other byte for itself up to
  the case of ASCII letters.
\<close>

function like :: "string \<Rightarrow> string \<Rightarrow> bool" where
  "like [] s = (s = [])"
| "like (p # ps) [] = (p = CHR ''%'' \<and> like ps [])"
| "like (p # ps) (c # t) =
     (if p = CHR ''%'' then like ps (c # t) \<or> like (p # ps) (skip_utf8 c t)
      else if p = CHR ''_'' then like ps (skip_utf8 c t)
      else to_lower_char p = to_lower_char c \<and> like ps t)"
  by pat_completeness auto
termination
proof (relation "measure (\<lambda>(p, s). length p + length s)")
  show "wf (measure (\<lambda>(p, s). length p + length s))"
    by simp
next
  fix p :: char and ps c t
  have "length (skip_utf8 c t) \<le> length t"
    by (simp add: skip_utf8_def length_dropWhile_le)
  then show "((p # ps, skip_utf8 c t), (p # ps, c # t)) \<in> measure (\<lambda>(p, s). length p + length s)"
    and "((ps, skip_utf8 c t), (p # ps, c # t)) \<in> measure (\<lambda>(p, s). length p + length s)"
    by simp_all
qed simp_all

definition lowerSearchTerm :: "string \<Rightarrow> string" where
  "lowerSearchTerm searchTerm = ''%'' @ toLower searchTerm @ ''%''"

text \<open>The eight columns of the \<^verbatim>\<open>WHERE\<close> clause, in its order.\<close>

definition searched_columns :: "donor \<Rightarrow> string list" where
  "searched_columns d =
     [first_name d, last_name d, email d, phone d, city d, state d, zip_code d, country d]"

definition donor_row :: "donor \<Rightarrow> string list" where
  "donor_row d =
     [to_string (donor_id d), first_name d, last_name d, street d, city d, state d, zip_code d,
      country d, phone d, email d]"

definition search_query :: "'a database \<Rightarrow> string \<Rightarrow> bool \<Rightarrow> donor list" where
  "search_query db searchTerm includeAll =
     (if includeAll \<or> searchTerm = [] then
        sort_key (\<lambda>d. (first_name d, last_name d)) (donors db)
      else
        filter (\<lambda>d. list_ex (\<lambda>c. like (lowerSearchTerm searchTerm) (LOWER c))
                      (searched_columns d))
          (donors db))"

text \<open>
  The table is the list of its rows, ten cells each. When the statement cannot be
  prepared the function returns before it touches the table.
\<close>

definition searchDonors ::
  "engine \<Rightarrow> 'a database \<Rightarrow> string \<Rightarrow> string list list \<Rightarrow> bool \<Rightarrow> string list list" where
  "searchDonors e db searchTerm table includeAll =
     (if e = PrepareError then table
      else map donor_row (fetched e (search_query db searchTerm includeAll)))"

subsection \<open>The search as the specification words it\<close>

text \<open>
  The specification's reading of the search, for comparison with \<open>search_query\<close>: a donor
  is found when the lower-cased term occurs as a substring in one of the eight columns,
  case ignored.
\<close>

fun starts_with :: "string \<Rightarrow> string \<Rightarrow> bool" where
  "starts_with s [] = True"
| "starts_with [] (c # t) = False"
| "starts_with (x # s) (c # t) = (x = c \<and> starts_with s t)"

fun is_substring :: "string \<Rightarrow> string \<Rightarrow> bool" where
  "is_substring t [] = (t = [])"
| "is_substring t (x # s) = (starts_with (x # s) t \<or> is_substring t s)"

definition spec_search :: "'a database \<Rightarrow> string \<Rightarrow> donor list" where
  "spec_search db searchTerm =
     filter (\<lambda>d. list_ex (\<lambda>c. is_substring (toLower searchTerm) (toLower c))
                   (searched_columns d))
       (donors db)"

text \<open>Text of ASCII characters only: there a byte is a character.\<close>

definition ascii :: "string \<Rightarrow> bool" where
  "ascii s \<longleftrightarrow> list_all (\<lambda>c. of_char c < (128::nat)) s"

section \<open>The navigation cursor of the main window\<close>

text \<open>
  The three members of \<^verbatim>\<open>MainWindow\<close> behind the navigation buttons. \<open>-1\<close> in
  \<open>currentDonorIndex\<close> and in \<open>currentDonorId\<close> is the program's mark for "no donor".
  The widgets that show the donor are not part of the cursor.
\<close>

record window =
  donorIds :: "int list"
  currentDonorIndex :: int
  currentDonorId :: int

text \<open>The constructor's initialiser list, before its first refresh.\<close>

definition MainWindow_init :: window where
  "MainWindow_init = \<lparr>donorIds = [], currentDonorIndex = - 1, currentDonorId = - 1\<rparr>"

text \<open>
  \<^verbatim>\<open>std::distance(v.begin(), std::find(v.begin(), v.end(), x))\<close>: the position of the first
  element equal to \<open>x\<close>, the length of the vector when there is none.
\<close>

fun find_distance :: "int \<Rightarrow> int list \<Rightarrow> nat" where
  "find_distance x [] = 0"
| "find_distance x (y # ys) = (if y = x then 0 else Suc (find_distance x ys))"

definition populateDonorIds :: "engine \<Rightarrow> 'a database \<Rightarrow> window \<Rightarrow> window" where
  "populateDonorIds e db w =
     (let ids = getAllDonorIds e db in
      if currentDonorId w \<noteq> - 1 then
        (if find_distance (currentDonorId w) ids < length ids
         then w\<lparr>donorIds := ids, currentDonorIndex := int (find_distance (currentDonorId w) ids)\<rparr>
         else w\<lparr>donorIds := ids, currentDonorIndex := - 1\<rparr>)
      else w\<lparr>donorIds := ids\<rparr>)"

definition loadDonor :: "engine \<Rightarrow> 'a database \<Rightarrow> window \<Rightarrow> int \<Rightarrow> window" where
  "loadDonor e db w i =
     (if i \<noteq> - 1 then
        (case getDonorDetails e db i of
           Some d \<Rightarrow> w\<lparr>currentDonorId := i\<rparr>
         | None \<Rightarrow> w\<lparr>currentDonorId := - 1\<rparr>)
      else w\<lparr>currentDonorId := - 1\<rparr>)"

text \<open>
  \<^verbatim>\<open>donorIds[currentDonorIndex]\<close>: \<^verbatim>\<open>operator[]\<close> of \<^verbatim>\<open>std::vector\<close> has no meaning outside the
  vector, and the operations below have no result (\<open>None\<close>) when they read there.
\<close>

definition vector_at :: "int list \<Rightarrow> int \<Rightarrow> int option" where
  "vector_at v i = (if 0 \<le> i \<and> i < int (length v) then Some (v ! nat i) else None)"

text \<open>\<^verbatim>\<open>static_cast<size_t>\<close> of an \<^verbatim>\<open>int\<close>, and \<^verbatim>\<open>size_t\<close> arithmetic, on 64 bits.\<close>

definition size_t :: "int \<Rightarrow> int" where
  "size_t i = i mod 2 ^ 64"

definition loadFirstDonor :: "engine \<Rightarrow> engine \<Rightarrow> 'a database \<Rightarrow> window \<Rightarrow> window option" where
  "loadFirstDonor e e' db w =
     (let w1 = populateDonorIds e db w in
      if donorIds w1 \<noteq> [] then
        (let w2 = w1\<lparr>currentDonorIndex := 0\<rparr> in
         case vector_at (donorIds w2) (currentDonorIndex w2) of
           None \<Rightarrow> None
         | Some i \<Rightarrow> Some (loadDonor e' db w2 i))
      else Some (loadDonor e' db w1 (- 1)))"

definition loadPreviousDonor :: "engine \<Rightarrow> 'a database \<Rightarrow> window \<Rightarrow> window option" where
  "loadPreviousDonor e db w =
     (if currentDonorIndex w > 0 then
        (let w1 = w\<lparr>currentDonorIndex := currentDonorIndex w - 1\<rparr> in
         case vector_at (donorIds w1) (currentDonorIndex w1) of
           None \<Rightarrow> None
         | Some i \<Rightarrow> Some (loadDonor e db w1 i))
      else Some w)"

definition loadNextDonor :: "engine \<Rightarrow> 'a database \<Rightarrow> window \<Rightarrow> window option" where
  "loadNextDonor e db w =
     (if size_t (currentDonorIndex w) < size_t (int (length (donorIds w)) - 1) then
        (let w1 = w\<lparr>currentDonorIndex := currentDonorIndex w + 1\<rparr> in
         case vector_at (donorIds w1) (currentDonorIndex w1) of
           None \<Rightarrow> None
         | Some i \<Rightarrow> Some (loadDonor e db w1 i))
      else Some w)"

definition loadLastDonor :: "engine \<Rightarrow> engine \<Rightarrow> 'a database \<Rightarrow> window \<Rightarrow> window option" where
  "loadLastDonor e e' db w =
     (let w1 = populateDonorIds e db w in
      if donorIds w1 \<noteq> [] then
        (let w2 = w1\<lparr>currentDonorIndex := int (length (donorIds w1)) - 1\<rparr> in
         case vector_at (donorIds w2) (currentDonorIndex w2) of
           None \<Rightarrow> None
         | Some i \<Rightarrow> Some (loadDonor e' db w2 i))
      else Some (loadDonor e' db w1 (- 1)))"

text \<open>
  A cursor is either on no donor (index \<open>-1\<close>) or on a position of its sequence; the
  sequence is a \<^verbatim>\<open>std::vector<int>\<close> indexed by an \<^verbatim>\<open>int\<close>.
\<close>

definition cursor_state :: "window \<Rightarrow> bool" where
  "cursor_state w \<longleftrightarrow>
     int (length (donorIds w)) < 2 ^ 31 \<and>
     (currentDonorIndex w = - 1 \<or>
      (0 \<le> currentDonorIndex w \<and> currentDonorIndex w < int (length (donorIds w))))"

text \<open>Donor additions and deletions, each with the outcome of its statement.\<close>

datatype donor_op = AddDonor donor | DeleteDonor int

fun apply_donor_op :: "'a database \<Rightarrow> engine \<times> donor_op \<Rightarrow> 'a database" where
  "apply_donor_op db (e, AddDonor vals) = snd (addDonor e db vals)"
| "apply_donor_op db (e, DeleteDonor i) = snd (deleteDonor e db i)"

definition run_donor_ops :: "(engine \<times> donor_op) list \<Rightarrow> 'a database \<Rightarrow> 'a database" where
  "run_donor_ops ops db = foldl apply_donor_op db ops"

section \<open>Sample data\<close>

text \<open>
  A platform to run the model on: an amount is a count of hundredths (\<open>1000\<close> is 10.00),
  \<^verbatim>\<open>SUM\<close> adds the counts, and every file opens.
\<close>

definition desk :: "int platform" where
  "desk = \<lparr>sql_sum = sum_list, real_value = (\<lambda>n. of_int n / 100),
            current_date = ''November 3, 2026'', can_open = (\<lambda>p. True)\<rparr>"

definition ann_lee :: donor where
  "ann_lee = \<lparr>donor_id = 1, first_name = ''Ann'', last_name = ''Lee'', street = ''1 Main St'',
     city = ''Springfield'', state = ''IL'', zip_code = ''62701'', country = ''USA'',
     phone = ''555-0100'', email = ''ann@example.org''\<rparr>"

definition bob_ray :: donor where
  "bob_ray = \<lparr>donor_id = 2, first_name = ''Bob'', last_name = ''Ray'', street = ''2 Oak Ave'',
     city = ''Dover'', state = ''DE'', zip_code = ''19901'', country = ''USA'',
     phone = ''555-0101'', email = ''bob@example.org''\<rparr>"

text \<open>A second Ann Lee, of Salem.\<close>

definition ann_of_salem :: donor where
  "ann_of_salem = \<lparr>donor_id = 2, first_name = ''Ann'', last_name = ''Lee'', street = ''9 Elm Rd'',
     city = ''Salem'', state = ''OR'', zip_code = ''97301'', country = ''USA'',
     phone = ''555-0102'', email = ''lee@example.org''\<rparr>"

text \<open>Donor 1 gives 10.00 and 25.50 in 2024 and 5.00 in 2023; donor 2 gives 40.00 in 2024.\<close>

definition gifts_of_1 :: "int donation list" where
  "gifts_of_1 =
     [\<lparr>donation_id = 1, don_donor_id = 1, amount = 1000, date = ''2024-03-01'',
       payment_method = ''check''\<rparr>,
      \<lparr>donation_id = 2, don_donor_id = 1, amount = 2550, date = ''2024-11-20'',
       payment_method = ''cash''\<rparr>,
      \<lparr>donation_id = 3, don_donor_id = 1, amount = 500, date = ''2023-12-31'',
       payment_method = ''cash''\<rparr>]"

definition gift_of_2 :: "int donation" where
  "gift_of_2 = \<lparr>donation_id = 4, don_donor_id = 2, amount = 4000, date = ''2024-06-15'',
     payment_method = ''card''\<rparr>"

text \<open>The store of a tracker after Ann Lee was added.\<close>

definition one_donor :: "int database" where
  "one_donor = \<lparr>donors = [ann_lee], donations = [], organization = None,
     donors_seq = 1, donations_seq = 0, foreign_keys = False\<rparr>"

text \<open>The same after her three donations.\<close>

definition ann_gave :: "int database" where
  "ann_gave = \<lparr>donors = [ann_lee], donations = gifts_of_1, organization = None,
     donors_seq = 1, donations_seq = 3, foreign_keys = False\<rparr>"

text \<open>Bob Ray has joined as donor 2 and given once.\<close>

definition two_gave :: "int database" where
  "two_gave = \<lparr>donors = [ann_lee, bob_ray], donations = gifts_of_1 @ [gift_of_2],
     organization = None, donors_seq = 2, donations_seq = 4, foreign_keys = False\<rparr>"

text \<open>Instead of Bob Ray, the second Ann Lee has joined as donor 2 and given once.\<close>

definition namesakes :: "int database" where
  "namesakes = \<lparr>donors = [ann_lee, ann_of_salem], donations = gifts_of_1 @ [gift_of_2],
     organization = None, donors_seq = 2, donations_seq = 4, foreign_keys = False\<rparr>"

text \<open>The same platform with Ann Lee's letter for 2024 impossible to open.\<close>

definition desk_locked :: "int platform" where
  "desk_locked = desk\<lparr>can_open := (\<lambda>p. p \<noteq> ''letters/Ann_Lee_2024_donation_letter.txt'')\<rparr>"

text \<open>Abe Zed is donor 3 of \<open>two_gave\<close>: storage order Ann, Bob, Abe.\<close>

definition abe_zed :: donor where
  "abe_zed = \<lparr>donor_id = 3, first_name = ''Abe'', last_name = ''Zed'', street = ''3 Pine Ln'',
     city = ''Austin'', state = ''TX'', zip_code = ''73301'', country = ''USA'',
     phone = ''555-0103'', email = ''abe@example.org''\<rparr>"

definition three_donors :: "int database" where
  "three_donors = two_gave\<lparr>donors := [ann_lee, bob_ray, abe_zed], donors_seq := 3\<rparr>"

text \<open>Windows over the donors 1 and 2: on no donor, on donor 1, on donor 2.\<close>

definition nav_none :: window where
  "nav_none = \<lparr>donorIds = [1, 2], currentDonorIndex = - 1, currentDonorId = - 1\<rparr>"

definition nav_on_ann :: window where
  "nav_on_ann = \<lparr>donorIds = [1, 2], currentDonorIndex = 0, currentDonorId = 1\<rparr>"

definition nav_on_bob :: window where
  "nav_on_bob = \<lparr>donorIds = [1, 2], currentDonorIndex = 1, currentDonorId = 2\<rparr>"

section \<open>Evaluating the sample data\<close>

lemmas sample_defs = ann_lee_def bob_ray_def ann_of_salem_def gifts_of_1_def gift_of_2_def
  one_donor_def ann_gave_def two_gave_def namesakes_def desk_def desk_locked_def

lemma to_string_examples:
  "to_string 1 = ''1''" "to_string 2 = ''2''" "to_string 3 = ''3''" "to_string 4 = ''4''"
  "to_string 2024 = ''2024''"
  by (simp_all add: to_string_def dec_nat.simps digit_char_def)


lemma amount_text_examples:
  "number_f (real_value desk 1000) 2 = ''10.00''" "number_f (real_value desk 2550) 2 = ''25.50''"
  "number_f (real_value desk 500) 2 = ''5.00''" "number_f (real_value desk 3550) 2 = ''35.50''"
  "number_f (real_value desk 4000) 2 = ''40.00''"
  by code_simp+

lemma fileName_examples:
  "fileName ''Ann'' ''Lee'' 2024 = ''letters/Ann_Lee_2024_donation_letter.txt''"
  "fileName ''Bob'' ''Ray'' 2024 = ''letters/Bob_Ray_2024_donation_letter.txt''"
  by code_simp+

text \<open>The sample stores are what the operations make of an empty file.\<close>

lemma one_donor_made: "one_donor = snd (addDonor Healthy (DonationTracker empty_store) ann_lee)"
  by (simp add: sample_defs addDonor_def DonationTracker_def empty_store_def donor_ids_def
      next_rowid_def)

lemma ann_gave_made:
  "ann_gave =
     snd (addDonation Healthy
       (snd (addDonation Healthy
         (snd (addDonation Healthy one_donor 1 1000 ''2024-03-01'' ''check''))
         1 2550 ''2024-11-20'' ''cash''))
       1 500 ''2023-12-31'' ''cash'')"
  by (simp add: sample_defs addDonation_def next_rowid_def)

lemma two_gave_made:
  "two_gave =
     snd (addDonation Healthy (snd (addDonor Healthy ann_gave bob_ray)) 2 4000 ''2024-06-15''
            ''card'')"
  by (simp add: sample_defs addDonation_def addDonor_def donor_ids_def next_rowid_def)

section \<open>Properties of the storage layer\<close>

subsection \<open>The connection never enforces foreign keys\<close>

lemma DonationTracker_foreign_keys: "\<not> foreign_keys (DonationTracker file)"
  by (simp add: DonationTracker_def)

lemma foreign_keys_kept:
  "foreign_keys (snd (addDonor e db vals)) = foreign_keys db"
  "foreign_keys (snd (updateDonor e db i vals)) = foreign_keys db"
  "foreign_keys (snd (deleteDonor e db i)) = foreign_keys db"
  "foreign_keys (snd (addDonation e db donorId amt dt pm)) = foreign_keys db"
  "foreign_keys (snd (deleteDonation e db i)) = foreign_keys db"
  "foreign_keys (snd (setOrganizationDetails e db name address)) = foreign_keys db"
  by (simp_all add: addDonor_def updateDonor_def deleteDonor_def addDonation_def
      deleteDonation_def setOrganizationDetails_def Let_def)

lemma filter_other_ids: "i \<notin> set (map donor_id ds) \<Longrightarrow> filter (\<lambda>d. donor_id d \<noteq> i) ds = ds"
  by (induction ds) auto

lemma map_other_ids:
  "i \<notin> set (map donor_id ds) \<Longrightarrow> map (\<lambda>d. if donor_id d = i then v else d) ds = ds"
  by (induction ds) auto

subsection \<open>Deleting a donor\<close>

text \<open>
  Without enforcement \<^verbatim>\<open>DELETE FROM donors\<close> leaves the \<^verbatim>\<open>donations\<close> table as it was;
  with enforcement no donation of the deleted donor would stay.
\<close>

lemma deleteDonor_keeps_donations:
  "\<not> foreign_keys db \<Longrightarrow> donations (snd (deleteDonor e db i)) = donations db"
  by (simp add: deleteDonor_def)

lemma deleteDonor_cascade_if_enforced:
  "foreign_keys db \<Longrightarrow> i \<in> set (donor_ids db) \<Longrightarrow>
   \<forall>x \<in> set (donations (snd (deleteDonor Healthy db i))). don_donor_id x \<noteq> i"
  by (simp add: deleteDonor_def)

text \<open>
  Claim C1, at a failing input. Ann Lee is donor 1 of a fresh tracker and owns the
  donations 1, 2 and 3. \<^verbatim>\<open>deleteDonor(1)\<close> returns \<^verbatim>\<open>true\<close> and removes the donor, and the three
  donations are still in the store: they are listed for donor 1 and their owner is no
  donor any more.
\<close>

theorem deleteDonor_orphans_donations:
  "fst (deleteDonor Healthy ann_gave 1) \<and>
   donor_ids (snd (deleteDonor Healthy ann_gave 1)) = [] \<and>
   map donation_id (donations (snd (deleteDonor Healthy ann_gave 1))) = [1, 2, 3] \<and>
   map don_donor_id (donations (snd (deleteDonor Healthy ann_gave 1))) = [1, 1, 1] \<and>
   getDonationsForDonor desk Healthy (snd (deleteDonor Healthy ann_gave 1)) 1 [] =
     [[''2'', ''1'', ''25.50'', ''2024-11-20'', ''cash''],
      [''1'', ''1'', ''10.00'', ''2024-03-01'', ''check''],
      [''3'', ''1'', ''5.00'', ''2023-12-31'', ''cash'']]"
  by (simp add: deleteDonor_def getDonationsForDonor_def order_by_date_desc_def donation_row_def
      donor_ids_def ann_gave_def ann_lee_def gifts_of_1_def to_string_examples
      amount_text_examples)

subsection \<open>Identifiers that name no donor\<close>

text \<open>
  Claim C2 as stated fails: donor 7 does not exist in the store that holds only donor 1,
  and both \<^verbatim>\<open>updateDonor(7, ...)\<close> and \<^verbatim>\<open>deleteDonor(7)\<close> return \<^verbatim>\<open>true\<close>.
\<close>

theorem absent_id_reports_success:
  "7 \<notin> set (donor_ids one_donor) \<and>
   fst (updateDonor Healthy one_donor 7 bob_ray) \<and>
   fst (deleteDonor Healthy one_donor 7)"
  by (simp add: updateDonor_def deleteDonor_def donor_ids_def one_donor_def ann_lee_def)

text \<open>
  Claim C2, amended. For an identifier that names no donor, \<^verbatim>\<open>updateDonor\<close> and
  \<^verbatim>\<open>deleteDonor\<close> change nothing in the store and return \<^verbatim>\<open>true\<close> exactly when the
  storage layer reports no error: there is no not-found outcome.
\<close>

theorem absent_id_no_mutation:
  assumes "i \<notin> set (donor_ids db)"
  shows "updateDonor e db i vals = (e = Healthy, db) \<and> deleteDonor e db i = (e = Healthy, db)"
  using assms
  by (simp add: updateDonor_def deleteDonor_def donor_ids_def filter_other_ids map_other_ids)

theorem absent_id_no_mutation_witness:
  "7 \<notin> set (donor_ids one_donor) \<and>
   updateDonor Healthy one_donor 7 bob_ray = (True, one_donor) \<and>
   deleteDonor Healthy one_donor 7 = (True, one_donor) \<and>
   updateDonor PrepareError one_donor 7 bob_ray = (False, one_donor)"
proof -
  have absent: "7 \<notin> set (donor_ids one_donor)"
    by (simp add: donor_ids_def one_donor_def ann_lee_def)
  show ?thesis
    using absent absent_id_no_mutation [OF absent, of Healthy bob_ray]
      absent_id_no_mutation [OF absent, of PrepareError bob_ray]
    by simp
qed

subsection \<open>Adding a donation\<close>

text \<open>
  Claim C9. On the connection the program opens (no foreign-key enforcement),
  \<^verbatim>\<open>addDonation\<close> succeeds whenever the statement executes, whatever \<open>donorId\<close> is: the new
  row carries \<open>donorId\<close>, the amount and the date as they were passed, and the next row
  identifier. No donor is looked up.
\<close>

theorem addDonation_unchecked_donor:
  assumes "\<not> foreign_keys db"
  shows "addDonation Healthy db donorId amt dt pm =
     (True, db\<lparr>donations := donations db @
                  [\<lparr>donation_id = next_rowid (donations_seq db) (map donation_id (donations db)),
                    don_donor_id = donorId, amount = amt, date = dt, payment_method = pm\<rparr>],
                donations_seq := next_rowid (donations_seq db) (map donation_id (donations db))\<rparr>)"
  using assms by (simp add: addDonation_def Let_def)

theorem addDonation_unchecked_donor_witness:
  "\<not> foreign_keys one_donor \<and> 99 \<notin> set (donor_ids one_donor) \<and>
   fst (addDonation Healthy one_donor 99 1234 ''2024-01-01'' ''cash'') \<and>
   donations (snd (addDonation Healthy one_donor 99 1234 ''2024-01-01'' ''cash'')) =
     [\<lparr>donation_id = 1, don_donor_id = 99, amount = 1234, date = ''2024-01-01'',
       payment_method = ''cash''\<rparr>]"
proof -
  have off: "\<not> foreign_keys one_donor"
    by (simp add: one_donor_def)
  have absent: "99 \<notin> set (donor_ids one_donor)"
    by (simp add: donor_ids_def one_donor_def ann_lee_def)
  have empty: "donations one_donor = []" "donations_seq one_donor = 0"
    by (simp_all add: one_donor_def)
  show ?thesis
    using off absent addDonation_unchecked_donor [OF off, of 99 1234 "''2024-01-01''" "''cash''"]
    by (simp add: empty next_rowid_def)
qed

section \<open>Properties of letter generation\<close>

subsection \<open>The loop over the result rows\<close>

lemma written_write_letters:
  "written (write_letters pf a b y rs s) =
     written s @ map (row_letter pf a b y) (filter (\<lambda>r. can_open pf (row_file y r)) rs)"
  by (induction rs arbitrary: s) (simp_all add: Let_def row_letter_def row_file_def)

lemma success_write_letters:
  "success (write_letters pf a b y rs s) \<longleftrightarrow>
     success s \<and> (\<forall>r \<in> set rs. can_open pf (row_file y r))"
  by (induction rs arbitrary: s) (auto simp add: Let_def row_file_def)

lemma files_write_letters:
  "files (write_letters pf a b y rs s) =
     files s ++ map_of (rev (map (row_letter pf a b y) (filter (\<lambda>r. can_open pf (row_file y r)) rs)))"
  by (induction rs arbitrary: s) (simp_all add: Let_def row_letter_def row_file_def map_add_upd_left)

lemma generate_written:
  "written (generateDonationLetters pf Healthy e_org db year fs) =
     map (row_letter pf (fst (letterhead e_org db)) (snd (letterhead e_org db)) year)
       (filter (\<lambda>r. can_open pf (row_file year r)) (letter_rows pf db year))"
  by (simp add: generateDonationLetters_def written_write_letters Let_def)

lemma generate_success:
  "success (generateDonationLetters pf Healthy e_org db year fs) \<longleftrightarrow>
     (\<forall>r \<in> set (letter_rows pf db year). can_open pf (row_file year r))"
  by (simp add: generateDonationLetters_def success_write_letters Let_def)

lemma generate_files:
  "files (generateDonationLetters pf Healthy e_org db year fs) =
     fs ++ map_of (rev (written (generateDonationLetters pf Healthy e_org db year fs)))"
  by (simp add: generateDonationLetters_def files_write_letters written_write_letters Let_def)

lemma map_of_rev_last:
  "filter (\<lambda>w. fst w = k) ws \<noteq> [] \<Longrightarrow>
   map_of (rev ws) k = Some (snd (last (filter (\<lambda>w. fst w = k) ws)))"
  by (induction ws rule: rev_induct) auto


lemmas letter_eval = generate_written generate_success letter_rows_def matching_def row_letter_def
  row_file_def fileName_examples letterhead_def getOrganizationDetails_def to_string_examples

subsection \<open>The total in the letter\<close>






subsection \<open>Which letters a year gives\<close>



subsection \<open>A letter that cannot be written\<close>

text \<open>
  A file that does not open does not stop the rows after it: of the rows that the query
  delivers, every one whose file opens has its letter written, in row order, and the
  run reports success exactly when the file of every delivered row opened.
\<close>

lemma letters_of_delivered_rows:
  assumes "e \<noteq> PrepareError"
  shows "written (generateDonationLetters pf e e_org db year fs) =
     map (row_letter pf (fst (letterhead e_org db)) (snd (letterhead e_org db)) year)
       (filter (\<lambda>r. can_open pf (row_file year r)) (fetched e (letter_rows pf db year)))"
    and "success (generateDonationLetters pf e e_org db year fs) \<longleftrightarrow>
     (\<forall>r \<in> set (fetched e (letter_rows pf db year)). can_open pf (row_file year r))"
  using assms
  by (simp_all add: generateDonationLetters_def written_write_letters success_write_letters
      Let_def)

text \<open>A statement that cannot be prepared does clear the flag.\<close>

lemma no_success_without_statement:
  "\<not> success (generateDonationLetters pf PrepareError e_org db year fs)"
  by (simp add: generateDonationLetters_def)

text \<open>When the query delivers all its rows, these are the rows of every qualifying donor.\<close>

lemma letters_after_open_failure:
  "written (generateDonationLetters pf Healthy e_org db year fs) =
     map (row_letter pf (fst (letterhead e_org db)) (snd (letterhead e_org db)) year)
       (filter (\<lambda>r. can_open pf (row_file year r)) (letter_rows pf db year)) \<and>
   (success (generateDonationLetters pf Healthy e_org db year fs) \<longleftrightarrow>
     (\<forall>r \<in> set (letter_rows pf db year). can_open pf (row_file year r)))"
  by (simp add: generate_written generate_success)

lemma letters_after_open_failure_example:
  "\<not> can_open desk_locked ''letters/Ann_Lee_2024_donation_letter.txt'' \<and>
   map fst (letter_rows desk_locked two_gave 2024) = [ann_lee, bob_ray] \<and>
   written (generateDonationLetters desk_locked Healthy Healthy two_gave 2024 Map.empty) =
     [(''letters/Bob_Ray_2024_donation_letter.txt'',
       letterText desk_locked [] [] 2024 (bob_ray, 4000))] \<and>
   \<not> success (generateDonationLetters desk_locked Healthy Healthy two_gave 2024 Map.empty)"
  using letters_after_open_failure [of desk_locked Healthy two_gave 2024 Map.empty]
  by (simp add: letter_rows_def matching_def row_letter_def row_file_def fileName_examples
      letterhead_def getOrganizationDetails_def to_string_examples sample_defs)

text \<open>
  Claim C7, at a failing input. Ann Lee and Bob Ray both have donations in 2024 and both
  letter files can be opened. The query delivers Ann Lee's row and then \<^verbatim>\<open>sqlite3_step\<close>
  reports an error: the loop ends, Bob Ray's letter is never written, and the run still
  reports success.
\<close>

theorem success_with_letter_missing:
  "map fst (letter_rows desk two_gave 2024) = [ann_lee, bob_ray] \<and>
   map (row_file 2024) (letter_rows desk two_gave 2024) =
     [''letters/Ann_Lee_2024_donation_letter.txt'', ''letters/Bob_Ray_2024_donation_letter.txt''] \<and>
   can_open desk ''letters/Bob_Ray_2024_donation_letter.txt'' \<and>
   success (generateDonationLetters desk (StepError 1) Healthy two_gave 2024 Map.empty) \<and>
   map fst (written (generateDonationLetters desk (StepError 1) Healthy two_gave 2024 Map.empty)) =
     [''letters/Ann_Lee_2024_donation_letter.txt''] \<and>
   files (generateDonationLetters desk (StepError 1) Healthy two_gave 2024 Map.empty)
     ''letters/Bob_Ray_2024_donation_letter.txt'' = None"
  by (simp add: generateDonationLetters_def Let_def letter_rows_def matching_def row_file_def
      fileName_examples letterhead_def getOrganizationDetails_def to_string_examples sample_defs)

subsection \<open>Donors of the same name\<close>

text \<open>
  Claim C10. The file name is computed from the first name, the last name and the year
  alone. Two donors of equal names that both have a matching donation get the same file
  name, both letters are written to it when it opens, and after the run the file holds
  the one that was written last.
\<close>

theorem namesakes_share_file:
  assumes "d1 \<in> set (donors db)" and "d2 \<in> set (donors db)"
    and "first_name d1 = first_name d2" and "last_name d1 = last_name d2"
    and "matching year db d1 \<noteq> []" and "matching year db d2 \<noteq> []"
    and "can_open pf (fileName (first_name d1) (last_name d1) year)"
  shows "fileName (first_name d2) (last_name d2) year = fileName (first_name d1) (last_name d1) year \<and>
    (fileName (first_name d1) (last_name d1) year,
     letterText pf (fst (letterhead e_org db)) (snd (letterhead e_org db)) year
       (d1, sql_sum pf (map amount (matching year db d1))))
      \<in> set (written (generateDonationLetters pf Healthy e_org db year fs)) \<and>
    (fileName (first_name d1) (last_name d1) year,
     letterText pf (fst (letterhead e_org db)) (snd (letterhead e_org db)) year
       (d2, sql_sum pf (map amount (matching year db d2))))
      \<in> set (written (generateDonationLetters pf Healthy e_org db year fs)) \<and>
    files (generateDonationLetters pf Healthy e_org db year fs)
        (fileName (first_name d1) (last_name d1) year) =
      Some (snd (last (filter (\<lambda>w. fst w = fileName (first_name d1) (last_name d1) year)
                         (written (generateDonationLetters pf Healthy e_org db year fs)))))"
proof -
  let ?n = "fileName (first_name d1) (last_name d1) year"
  let ?run = "generateDonationLetters pf Healthy e_org db year fs"
  let ?a = "fst (letterhead e_org db)" and ?b = "snd (letterhead e_org db)"
  have same: "fileName (first_name d2) (last_name d2) year = ?n"
    using assms(3,4) by simp
  have r1: "(d1, sql_sum pf (map amount (matching year db d1))) \<in> set (letter_rows pf db year)"
    using assms(1,5) by (auto simp add: letter_rows_def)
  have r2: "(d2, sql_sum pf (map amount (matching year db d2))) \<in> set (letter_rows pf db year)"
    using assms(2,6) by (auto simp add: letter_rows_def)
  have w1: "(?n, letterText pf ?a ?b year (d1, sql_sum pf (map amount (matching year db d1))))
      \<in> set (written ?run)"
    unfolding generate_written using r1 assms(7)
    by (force simp add: row_letter_def row_file_def)
  have w2: "(?n, letterText pf ?a ?b year (d2, sql_sum pf (map amount (matching year db d2))))
      \<in> set (written ?run)"
    unfolding generate_written using r2 assms(7) same
    by (force simp add: row_letter_def row_file_def)
  have "filter (\<lambda>w. fst w = ?n) (written ?run) \<noteq> []"
    using w1 by (force simp add: filter_empty_conv)
  then have "map_of (rev (written ?run)) ?n =
      Some (snd (last (filter (\<lambda>w. fst w = ?n) (written ?run))))"
    by (rule map_of_rev_last)
  then have last: "files ?run ?n = Some (snd (last (filter (\<lambda>w. fst w = ?n) (written ?run))))"
    by (subst generate_files) (simp add: map_add_def)
  show ?thesis using same w1 w2 last by blast
qed

theorem namesakes_share_file_witness:
  "ann_lee \<in> set (donors namesakes) \<and> ann_of_salem \<in> set (donors namesakes) \<and>
   donor_id ann_lee \<noteq> donor_id ann_of_salem \<and>
   first_name ann_lee = first_name ann_of_salem \<and> last_name ann_lee = last_name ann_of_salem \<and>
   matching 2024 namesakes ann_lee \<noteq> [] \<and> matching 2024 namesakes ann_of_salem \<noteq> [] \<and>
   can_open desk (fileName (first_name ann_lee) (last_name ann_lee) 2024) \<and>
   map fst (written (generateDonationLetters desk Healthy Healthy namesakes 2024 Map.empty)) =
     [''letters/Ann_Lee_2024_donation_letter.txt'', ''letters/Ann_Lee_2024_donation_letter.txt''] \<and>
   files (generateDonationLetters desk Healthy Healthy namesakes 2024 Map.empty)
       ''letters/Ann_Lee_2024_donation_letter.txt'' =
     Some (letterText desk [] [] 2024 (ann_of_salem, 4000))"
proof -
  have h: "ann_lee \<in> set (donors namesakes)" "ann_of_salem \<in> set (donors namesakes)"
    "first_name ann_lee = first_name ann_of_salem" "last_name ann_lee = last_name ann_of_salem"
    "matching 2024 namesakes ann_lee \<noteq> []" "matching 2024 namesakes ann_of_salem \<noteq> []"
    "can_open desk (fileName (first_name ann_lee) (last_name ann_lee) 2024)"
    by (simp_all add: matching_def to_string_examples sample_defs)
  have w: "written (generateDonationLetters desk Healthy Healthy namesakes 2024 Map.empty) =
     [(''letters/Ann_Lee_2024_donation_letter.txt'', letterText desk [] [] 2024 (ann_lee, 3550)),
      (''letters/Ann_Lee_2024_donation_letter.txt'', letterText desk [] [] 2024 (ann_of_salem, 4000))]"
    by (simp add: letter_eval sample_defs)
  have n: "fileName (first_name ann_lee) (last_name ann_lee) 2024 =
      ''letters/Ann_Lee_2024_donation_letter.txt''"
    by (simp add: fileName_examples ann_lee_def)
  have d: "donor_id ann_lee \<noteq> donor_id ann_of_salem"
    by (simp add: sample_defs)
  have last_write: "files (generateDonationLetters desk Healthy Healthy namesakes 2024 Map.empty)
        (fileName (first_name ann_lee) (last_name ann_lee) 2024) =
      Some (snd (last (filter (\<lambda>w. fst w = fileName (first_name ann_lee) (last_name ann_lee) 2024)
                         (written (generateDonationLetters desk Healthy Healthy namesakes 2024
                                     Map.empty)))))"
    using namesakes_share_file [OF h, of Healthy Map.empty] by blast
  have survivor: "files (generateDonationLetters desk Healthy Healthy namesakes 2024 Map.empty)
       ''letters/Ann_Lee_2024_donation_letter.txt'' =
     Some (letterText desk [] [] 2024 (ann_of_salem, 4000))"
    using last_write by (simp add: n w)
  show ?thesis
    using h d survivor by (simp add: w)
qed

section \<open>Properties of the search\<close>

subsection \<open>All donors, by name\<close>

text \<open>
  Claim C8. With \<open>includeAll\<close> set or an empty term, and the statement running to its
  end, the table gets one row for every donor of the store, the rows ascending in the
  pair (first name, last name), compared column by column as the engine compares text.
\<close>

theorem list_all_ordered:
  assumes "includeAll \<or> searchTerm = []"
  shows "searchDonors Healthy db searchTerm table includeAll =
           map donor_row (search_query db searchTerm includeAll) \<and>
         mset (search_query db searchTerm includeAll) = mset (donors db) \<and>
         sorted (map (\<lambda>d. (first_name d, last_name d)) (search_query db searchTerm includeAll))"
  using assms by (auto simp add: searchDonors_def search_query_def)

theorem list_all_ordered_witness:
  "searchDonors Healthy three_donors '''' [] False =
     [donor_row abe_zed, donor_row ann_lee, donor_row bob_ray] \<and>
   searchDonors Healthy three_donors ''zzz'' [] True =
     [donor_row abe_zed, donor_row ann_lee, donor_row bob_ray] \<and>
   donors three_donors = [ann_lee, bob_ray, abe_zed] \<and>
   sorted [(''Abe'', ''Zed''), (''Ann'', ''Lee''), (''Bob'', ''Ray'')]"
proof -
  have q: "sort_key (\<lambda>d. (first_name d, last_name d)) (donors three_donors) =
      [abe_zed, ann_lee, bob_ray]"
    by (simp add: three_donors_def sample_defs abe_zed_def)
  have s: "sorted [(''Abe'', ''Zed''), (''Ann'', ''Lee''), (''Bob'', ''Ray'')]"
    by simp
  have d: "donors three_donors = [ann_lee, bob_ray, abe_zed]"
    by (simp add: three_donors_def)
  have by_empty_term: "searchDonors Healthy three_donors '''' [] False =
      [donor_row abe_zed, donor_row ann_lee, donor_row bob_ray]"
    using list_all_ordered [of False "''''" three_donors "[]"]
    by (simp add: search_query_def q)
  have by_flag: "searchDonors Healthy three_donors ''zzz'' [] True =
      [donor_row abe_zed, donor_row ann_lee, donor_row bob_ray]"
    using list_all_ordered [of True "''zzz''" three_donors "[]"]
    by (simp add: search_query_def q)
  show ?thesis
    using by_empty_term by_flag s d by simp
qed

subsection \<open>Searching for a term\<close>

text \<open>Lower-casing fixes the two wildcard characters, is idempotent and keeps ASCII text ASCII.\<close>

lemma upper_range: "CHR ''A'' \<le> c \<and> c \<le> CHR ''Z'' \<longleftrightarrow> 65 \<le> (of_char c :: nat) \<and> (of_char c :: nat) \<le> 90"
  by (simp add: less_eq_char_def)

lemma to_lower_char_code: "(of_char (to_lower_char c) :: nat) =
   (if 65 \<le> (of_char c :: nat) \<and> (of_char c :: nat) \<le> 90 then of_char c + 32 else of_char c)"
  by (simp add: to_lower_char_def upper_range)

lemma to_lower_char_idem: "to_lower_char (to_lower_char c) = to_lower_char c"
proof -
  have "(of_char (to_lower_char (to_lower_char c)) :: nat) = of_char (to_lower_char c)"
    by (simp add: to_lower_char_code)
  then show ?thesis by (rule of_char_eqI)
qed

lemma to_lower_char_percent: "to_lower_char c = CHR ''%'' \<longleftrightarrow> c = CHR ''%''"
proof -
  have "(of_char (to_lower_char c) :: nat) = of_char CHR ''%'' \<longleftrightarrow> (of_char c :: nat) = of_char CHR ''%''"
    by (simp add: to_lower_char_code)
  then show ?thesis by (simp only: of_char_eq_iff)
qed

lemma to_lower_char_underscore: "to_lower_char c = CHR ''_'' \<longleftrightarrow> c = CHR ''_''"
proof -
  have "(of_char (to_lower_char c) :: nat) = of_char CHR ''_'' \<longleftrightarrow> (of_char c :: nat) = of_char CHR ''_''"
    by (simp add: to_lower_char_code)
  then show ?thesis by (simp only: of_char_eq_iff)
qed

lemma toLower_idem: "toLower (toLower s) = toLower s"
  by (simp add: toLower_def to_lower_char_idem)

lemma skip_utf8_ascii: "of_char c < (128::nat) \<Longrightarrow> skip_utf8 c t = t"
  by (simp add: skip_utf8_def)

lemma skip_utf8_length: "length (skip_utf8 c t) \<le> length t"
  by (simp add: skip_utf8_def length_dropWhile_le)

lemma ascii_LOWER: "ascii s \<Longrightarrow> ascii (LOWER s)"
  by (induction s) (simp_all add: ascii_def LOWER_def to_lower_char_code)

lemma like_percent:
  assumes "ascii s"
  shows "like (CHR ''%'' # ps) s \<longleftrightarrow> (\<exists>pre suf. s = pre @ suf \<and> like ps suf)"
  using assms
proof (induction s)
  case Nil
  then show ?case by simp
next
  case (Cons c t)
  then have c: "skip_utf8 c t = t" and t: "ascii t"
    by (simp_all add: ascii_def skip_utf8_ascii)
  have "like (CHR ''%'' # ps) (c # t) \<longleftrightarrow> like ps (c # t) \<or> like (CHR ''%'' # ps) t"
    by (simp add: c)
  also have "\<dots> \<longleftrightarrow> like ps (c # t) \<or> (\<exists>pre suf. t = pre @ suf \<and> like ps suf)"
    using Cons.IH [OF t] by simp
  also have "\<dots> \<longleftrightarrow> (\<exists>pre suf. c # t = pre @ suf \<and> like ps suf)"
    by (auto simp add: Cons_eq_append_conv)
  finally show ?case .
qed

lemma like_only_percent: "like [CHR ''%''] s"
proof (induction "length s" arbitrary: s rule: less_induct)
  case less
  show ?case
  proof (cases s)
    case Nil
    then show ?thesis by simp
  next
    case (Cons c t)
    have "length (skip_utf8 c t) < length s"
      using Cons skip_utf8_length [of c t] by simp
    then have "like [CHR ''%''] (skip_utf8 c t)"
      by (rule less)
    then show ?thesis using Cons by simp
  qed
qed

lemma like_plain:
  assumes "CHR ''%'' \<notin> set t" and "CHR ''_'' \<notin> set t"
  shows "like (t @ ps) s \<longleftrightarrow>
     (\<exists>a b. s = a @ b \<and> map to_lower_char a = map to_lower_char t \<and> like ps b)"
  using assms
proof (induction t arbitrary: s)
  case Nil
  then show ?case by simp
next
  case (Cons p t)
  then have IH: "\<And>r. like (t @ ps) r \<longleftrightarrow>
     (\<exists>a b. r = a @ b \<and> map to_lower_char a = map to_lower_char t \<and> like ps b)"
    and p: "p \<noteq> CHR ''%''" "p \<noteq> CHR ''_''"
    by auto
  show ?case
  proof (cases s)
    case Nil
    then show ?thesis using p by simp
  next
    case (Cons c r)
    have "like ((p # t) @ ps) (c # r) \<longleftrightarrow> to_lower_char p = to_lower_char c \<and> like (t @ ps) r"
      using p by simp
    also have "\<dots> \<longleftrightarrow> to_lower_char p = to_lower_char c \<and>
        (\<exists>a b. r = a @ b \<and> map to_lower_char a = map to_lower_char t \<and> like ps b)"
      by (simp only: IH)
    also have "\<dots> \<longleftrightarrow> (\<exists>a b. c # r = a @ b \<and>
        map to_lower_char a = map to_lower_char (p # t) \<and> like ps b)"
    proof (rule iffI)
      assume "to_lower_char p = to_lower_char c \<and>
        (\<exists>a b. r = a @ b \<and> map to_lower_char a = map to_lower_char t \<and> like ps b)"
      then obtain a b where "to_lower_char p = to_lower_char c" "r = a @ b"
        "map to_lower_char a = map to_lower_char t" "like ps b"
        by blast
      then have "c # r = (c # a) @ b \<and>
          map to_lower_char (c # a) = map to_lower_char (p # t) \<and> like ps b"
        by simp
      then show "\<exists>a b. c # r = a @ b \<and>
          map to_lower_char a = map to_lower_char (p # t) \<and> like ps b"
        by blast
    next
      assume "\<exists>a b. c # r = a @ b \<and>
          map to_lower_char a = map to_lower_char (p # t) \<and> like ps b"
      then obtain a b where ab: "c # r = a @ b"
        "map to_lower_char a = map to_lower_char (p # t)" "like ps b"
        by blast
      from ab(2) obtain x a' where a: "a = x # a'"
        by (cases a) auto
      with ab have "x = c" "r = a' @ b" "to_lower_char p = to_lower_char c"
        "map to_lower_char a' = map to_lower_char t"
        by auto
      with ab(3) show "to_lower_char p = to_lower_char c \<and>
        (\<exists>a b. r = a @ b \<and> map to_lower_char a = map to_lower_char t \<and> like ps b)"
        by blast
    qed
    finally show ?thesis using Cons by simp
  qed
qed

lemma starts_with_iff: "starts_with s t \<longleftrightarrow> (\<exists>post. s = t @ post)"
  by (induction s t rule: starts_with.induct) auto

lemma is_substring_iff: "is_substring t s \<longleftrightarrow> (\<exists>pre post. s = pre @ t @ post)"
proof (induction s)
  case Nil
  then show ?case by auto
next
  case (Cons x s)
  have "is_substring t (x # s) \<longleftrightarrow> (\<exists>post. x # s = t @ post) \<or> (\<exists>pre post. s = pre @ t @ post)"
    using Cons.IH by (simp add: starts_with_iff)
  also have "\<dots> \<longleftrightarrow> (\<exists>pre post. x # s = pre @ t @ post)"
    by (auto simp add: Cons_eq_append_conv)
  finally show ?case .
qed


lemma like_contains:
  assumes "CHR ''%'' \<notin> set t" and "CHR ''_'' \<notin> set t" and "ascii s"
  shows "like (CHR ''%'' # t @ [CHR ''%'']) s \<longleftrightarrow>
     (\<exists>pre a post. s = pre @ a @ post \<and> map to_lower_char a = map to_lower_char t)"
proof -
  have "like (CHR ''%'' # t @ [CHR ''%'']) s \<longleftrightarrow>
      (\<exists>pre suf. s = pre @ suf \<and> like (t @ [CHR ''%'']) suf)"
    by (rule like_percent [OF assms(3)])
  also have "\<dots> \<longleftrightarrow> (\<exists>pre suf. s = pre @ suf \<and>
      (\<exists>a b. suf = a @ b \<and> map to_lower_char a = map to_lower_char t \<and> like [CHR ''%''] b))"
    by (simp only: like_plain [OF assms(1,2)])
  also have "\<dots> \<longleftrightarrow>
      (\<exists>pre a post. s = pre @ a @ post \<and> map to_lower_char a = map to_lower_char t)"
    by (simp only: like_only_percent) blast
  finally show ?thesis .
qed

lemma set_toLower_wildcards:
  "CHR ''%'' \<in> set (toLower t) \<longleftrightarrow> CHR ''%'' \<in> set t"
  "CHR ''_'' \<in> set (toLower t) \<longleftrightarrow> CHR ''_'' \<in> set t"
proof -
  have "\<And>c. CHR ''%'' = to_lower_char c \<longleftrightarrow> c = CHR ''%''"
    using to_lower_char_percent by (simp add: eq_commute [of "CHR ''%''"])
  then show "CHR ''%'' \<in> set (toLower t) \<longleftrightarrow> CHR ''%'' \<in> set t"
    by (induction t) (auto simp add: toLower_def)
  have "\<And>c. CHR ''_'' = to_lower_char c \<longleftrightarrow> c = CHR ''_''"
    using to_lower_char_underscore by (simp add: eq_commute [of "CHR ''_''"])
  then show "CHR ''_'' \<in> set (toLower t) \<longleftrightarrow> CHR ''_'' \<in> set t"
    by (induction t) (auto simp add: toLower_def)
qed

lemma like_is_substring:
  assumes "CHR ''%'' \<notin> set t" and "CHR ''_'' \<notin> set t" and "ascii c"
  shows "like (lowerSearchTerm t) (LOWER c) \<longleftrightarrow> is_substring (toLower t) (toLower c)"
proof -
  have free: "CHR ''%'' \<notin> set (toLower t)" "CHR ''_'' \<notin> set (toLower t)"
    using assms by (simp_all add: set_toLower_wildcards)
  have same: "LOWER c = toLower c"
    by (simp add: LOWER_def toLower_def)
  have "ascii (toLower c)"
    using ascii_LOWER [OF assms(3)] by (simp add: same)
  then have "like (lowerSearchTerm t) (toLower c) \<longleftrightarrow>
      (\<exists>pre a post. toLower c = pre @ a @ post \<and> toLower a = toLower (toLower t))"
    using like_contains [OF free] by (simp add: lowerSearchTerm_def toLower_def)
  also have "\<dots> \<longleftrightarrow> (\<exists>pre post. toLower c = pre @ toLower t @ post)"
  proof (rule iffI)
    assume "\<exists>pre a post. toLower c = pre @ a @ post \<and> toLower a = toLower (toLower t)"
    then obtain pre a post where s: "toLower c = pre @ a @ post" "toLower a = toLower (toLower t)"
      by blast
    from s(1) have "toLower (toLower c) = toLower pre @ toLower a @ toLower post"
      by (simp add: toLower_def)
    then have "toLower c = toLower pre @ toLower t @ toLower post"
      using s(2) by (simp add: toLower_idem)
    then show "\<exists>pre post. toLower c = pre @ toLower t @ post"
      by blast
  next
    assume "\<exists>pre post. toLower c = pre @ toLower t @ post"
    then show "\<exists>pre a post. toLower c = pre @ a @ post \<and> toLower a = toLower (toLower t)"
      by blast
  qed
  finally show ?thesis by (simp add: is_substring_iff same)
qed

text \<open>
  On ASCII text, where the embedding has the program's own pattern and the engine's own
  characters, a term without \<^verbatim>\<open>%\<close> and \<^verbatim>\<open>_\<close> finds the donors that the substring search
  of the specification finds.
\<close>

lemma search_is_substring_search:
  assumes "searchTerm \<noteq> []" and "CHR ''%'' \<notin> set searchTerm" and "CHR ''_'' \<notin> set searchTerm"
    and "ascii searchTerm"
    and "\<forall>d \<in> set (donors db). \<forall>c \<in> set (searched_columns d). ascii c"
  shows "search_query db searchTerm False = spec_search db searchTerm"
proof -
  have "list_ex (\<lambda>c. like (lowerSearchTerm searchTerm) (LOWER c)) (searched_columns d) \<longleftrightarrow>
      list_ex (\<lambda>c. is_substring (toLower searchTerm) (toLower c)) (searched_columns d)"
    if "d \<in> set (donors db)" for d
    using that assms(5) like_is_substring [OF assms(2,3)]
    by (simp add: list_ex_iff)
  then have "filter (\<lambda>d. list_ex (\<lambda>c. like (lowerSearchTerm searchTerm) (LOWER c))
                            (searched_columns d)) (donors db) =
      filter (\<lambda>d. list_ex (\<lambda>c. is_substring (toLower searchTerm) (toLower c))
                            (searched_columns d)) (donors db)"
    by (rule filter_cong [OF refl])
  then show ?thesis
    using assms(1) by (simp add: search_query_def spec_search_def)
qed

text \<open>Two ASCII terms of the same lower-case text find the same donors.\<close>

lemma search_ignores_case:
  assumes "toLower t = toLower t'" and "t \<noteq> []" and "t' \<noteq> []"
    and "ascii t" and "ascii t'"
  shows "searchDonors e db t table False = searchDonors e db t' table False"
  using assms by (simp add: searchDonors_def search_query_def lowerSearchTerm_def)

text \<open>
  Claim C4, at a failing input. Ann Lee is the only donor and none of her eight searched
  columns holds an underscore, so the term \<^verbatim>\<open>_\<close> is a substring of none of them; the
  pattern \<^verbatim>\<open>%_%\<close> matches every non-empty column, and the search returns her.
  (\<open>search_is_substring_search\<close> above: on ASCII text and terms without \<^verbatim>\<open>%\<close> and \<^verbatim>\<open>_\<close>
  the search is the substring search of the claim, and by \<open>search_ignores_case\<close> the case
  of an ASCII term does not matter.)
\<close>

theorem wildcard_term_finds_all:
  "CHR ''_'' \<notin> set (concat (searched_columns ann_lee)) \<and>
   search_query one_donor ''_'' False = [ann_lee] \<and>
   searchDonors Healthy one_donor ''_'' [] False = [donor_row ann_lee] \<and>
   spec_search one_donor ''_'' = []"
  by code_simp

section \<open>Properties of the navigation cursor\<close>

subsection \<open>Refreshing the sequence\<close>

lemma find_distance_le: "find_distance x ys \<le> length ys"
  by (induction ys) auto

lemma find_distance_found: "find_distance x ys < length ys \<longleftrightarrow> x \<in> set ys"
  by (induction ys) auto

lemma find_distance_nth: "x \<in> set ys \<Longrightarrow> ys ! find_distance x ys = x"
  by (induction ys) auto

lemma find_distance_first: "j < find_distance x ys \<Longrightarrow> ys ! j \<noteq> x"
proof (induction ys arbitrary: j)
  case Nil
  then show ?case by simp
next
  case (Cons y ys)
  then show ?case by (cases j) (auto split: if_splits)
qed

lemma loadDonor_cursor:
  "donorIds (loadDonor e db w i) = donorIds w"
  "currentDonorIndex (loadDonor e db w i) = currentDonorIndex w"
  by (simp_all add: loadDonor_def split: option.split)

lemma populate_keeps:
  "donorIds (populateDonorIds e db w) = getAllDonorIds e db"
  "currentDonorId (populateDonorIds e db w) = currentDonorId w"
  by (simp_all add: populateDonorIds_def Let_def)

lemma populate_relocates:
  assumes "currentDonorId w \<noteq> - 1"
  shows "if currentDonorId w \<in> set (getAllDonorIds e db)
     then 0 \<le> currentDonorIndex (populateDonorIds e db w) \<and>
          currentDonorIndex (populateDonorIds e db w) < int (length (getAllDonorIds e db)) \<and>
          getAllDonorIds e db ! nat (currentDonorIndex (populateDonorIds e db w)) = currentDonorId w \<and>
          (\<forall>j < nat (currentDonorIndex (populateDonorIds e db w)).
             getAllDonorIds e db ! j \<noteq> currentDonorId w)
     else currentDonorIndex (populateDonorIds e db w) = - 1"
  using assms
  by (simp add: populateDonorIds_def Let_def find_distance_found find_distance_nth
      find_distance_first)

lemma populate_unpositioned:
  "currentDonorId w = - 1 \<Longrightarrow> currentDonorIndex (populateDonorIds e db w) = currentDonorIndex w"
  by (simp add: populateDonorIds_def Let_def)

text \<open>
  Claim C5. After any run of donor additions and deletions, a refresh whose query runs
  to its end makes the cursor's sequence the donor identifiers of the store in ascending
  order and keeps the current donor identifier. When a donor is current, the index
  becomes the first position of its identifier in the new sequence if the identifier is
  still in the store, and \<open>-1\<close> ("none") if it is not. When no donor is current there is
  no identifier to locate, and the index stays as it is.
\<close>

theorem refresh_relocates:
  "sorted (donorIds (populateDonorIds Healthy (run_donor_ops ops db) w)) \<and>
   mset (donorIds (populateDonorIds Healthy (run_donor_ops ops db) w)) =
     mset (donor_ids (run_donor_ops ops db)) \<and>
   currentDonorId (populateDonorIds Healthy (run_donor_ops ops db) w) = currentDonorId w \<and>
   (currentDonorId w = - 1 \<longrightarrow>
      currentDonorIndex (populateDonorIds Healthy (run_donor_ops ops db) w) = currentDonorIndex w) \<and>
   (currentDonorId w \<noteq> - 1 \<longrightarrow>
      (if currentDonorId w \<in> set (donor_ids (run_donor_ops ops db))
       then 0 \<le> currentDonorIndex (populateDonorIds Healthy (run_donor_ops ops db) w) \<and>
            currentDonorIndex (populateDonorIds Healthy (run_donor_ops ops db) w)
              < int (length (donorIds (populateDonorIds Healthy (run_donor_ops ops db) w))) \<and>
            donorIds (populateDonorIds Healthy (run_donor_ops ops db) w)
              ! nat (currentDonorIndex (populateDonorIds Healthy (run_donor_ops ops db) w))
              = currentDonorId w \<and>
            (\<forall>j < nat (currentDonorIndex (populateDonorIds Healthy (run_donor_ops ops db) w)).
               donorIds (populateDonorIds Healthy (run_donor_ops ops db) w) ! j
                 \<noteq> currentDonorId w)
       else currentDonorIndex (populateDonorIds Healthy (run_donor_ops ops db) w) = - 1))"
proof -
  let ?db = "run_donor_ops ops db"
  have ids: "getAllDonorIds Healthy ?db = sort (donor_ids ?db)"
    by (simp add: getAllDonorIds_def)
  have order: "sorted (getAllDonorIds Healthy ?db)"
    "mset (getAllDonorIds Healthy ?db) = mset (donor_ids ?db)"
    "set (donor_ids ?db) = set (getAllDonorIds Healthy ?db)"
    by (simp_all add: ids)
  show ?thesis
    unfolding populate_keeps order(3)
    using order(1,2) populate_relocates [of w Healthy ?db]
      populate_unpositioned [of w Healthy ?db]
    by blast
qed

theorem refresh_relocates_witness:
  "currentDonorId nav_on_bob \<noteq> - 1 \<and>
   populateDonorIds Healthy (run_donor_ops [(Healthy, DeleteDonor 1)] two_gave) nav_on_bob =
     \<lparr>donorIds = [2], currentDonorIndex = 0, currentDonorId = 2\<rparr> \<and>
   populateDonorIds Healthy (run_donor_ops [(Healthy, DeleteDonor 2)] two_gave) nav_on_bob =
     \<lparr>donorIds = [1], currentDonorIndex = - 1, currentDonorId = 2\<rparr> \<and>
   populateDonorIds Healthy (run_donor_ops [(Healthy, AddDonor abe_zed)] two_gave) nav_on_bob =
     \<lparr>donorIds = [1, 2, 3], currentDonorIndex = 1, currentDonorId = 2\<rparr>"
  using refresh_relocates [of "[(Healthy, DeleteDonor 1)]" two_gave nav_on_bob]
    refresh_relocates [of "[(Healthy, DeleteDonor 2)]" two_gave nav_on_bob]
    refresh_relocates [of "[(Healthy, AddDonor abe_zed)]" two_gave nav_on_bob]
  by (simp add: populateDonorIds_def getAllDonorIds_def run_donor_ops_def deleteDonor_def
      addDonor_def donor_ids_def next_rowid_def nav_on_bob_def sample_defs abe_zed_def)

subsection \<open>Stepping backwards and forwards\<close>

lemma size_t_none: "size_t (- 1) = 2 ^ 64 - 1"
  by (simp add: size_t_def)

lemma size_t_below: "size_t i < 2 ^ 64"
  by (simp add: size_t_def)

lemma size_t_small: "0 \<le> i \<Longrightarrow> i < 2 ^ 64 \<Longrightarrow> size_t i = i"
  by (simp add: size_t_def)

lemma next_guard:
  assumes "cursor_state w"
  shows "size_t (currentDonorIndex w) < size_t (int (length (donorIds w)) - 1) \<longleftrightarrow>
     currentDonorIndex w \<noteq> - 1 \<and> currentDonorIndex w < int (length (donorIds w)) - 1"
proof (cases "currentDonorIndex w = - 1")
  case True
  have "size_t (int (length (donorIds w)) - 1) < 2 ^ 64"
    by (rule size_t_below)
  then show ?thesis using True by (simp add: size_t_none)
next
  case False
  with assms have r: "0 \<le> currentDonorIndex w" "currentDonorIndex w < int (length (donorIds w))"
    "int (length (donorIds w)) < 2 ^ 31"
    by (auto simp add: cursor_state_def)
  moreover have "(2::int) ^ 31 < 2 ^ 64"
    by simp
  ultimately have "0 \<le> int (length (donorIds w)) - 1" "int (length (donorIds w)) - 1 < 2 ^ 64"
    "currentDonorIndex w < 2 ^ 64"
    by linarith+
  with r have "size_t (currentDonorIndex w) = currentDonorIndex w"
    "size_t (int (length (donorIds w)) - 1) = int (length (donorIds w)) - 1"
    by (simp_all only: size_t_small)
  then show ?thesis using False by simp
qed

text \<open>
  \<^verbatim>\<open>loadFirstDonor\<close> and \<^verbatim>\<open>loadLastDonor\<close> refresh and go to the first and the last position
  of a sequence that is not empty, and to "no donor" on an empty one.
\<close>

lemma loadFirstDonor_position:
  assumes "getAllDonorIds e db \<noteq> []"
  shows "\<exists>w'. loadFirstDonor e e' db w = Some w' \<and> currentDonorIndex w' = 0 \<and>
     donorIds w' = getAllDonorIds e db"
  using assms
  by (simp add: loadFirstDonor_def Let_def populate_keeps vector_at_def loadDonor_cursor)

lemma loadLastDonor_position:
  assumes "getAllDonorIds e db \<noteq> []"
  shows "\<exists>w'. loadLastDonor e e' db w = Some w' \<and>
     currentDonorIndex w' = int (length (getAllDonorIds e db)) - 1 \<and>
     donorIds w' = getAllDonorIds e db"
  using assms
  by (simp add: loadLastDonor_def Let_def populate_keeps vector_at_def loadDonor_cursor)

lemma load_first_last_empty:
  assumes "getAllDonorIds e db = []"
  shows "loadFirstDonor e e' db w = Some (loadDonor e' db (populateDonorIds e db w) (- 1))"
    and "loadLastDonor e e' db w = Some (loadDonor e' db (populateDonorIds e db w) (- 1))"
    and "currentDonorId (loadDonor e' db (populateDonorIds e db w) (- 1)) = - 1"
  using assms
  by (simp_all add: loadFirstDonor_def loadLastDonor_def Let_def populate_keeps loadDonor_def)

text \<open>
  The cursor states are closed under the program's moves: the constructor starts in one,
  a refresh leads to one when a donor is current or none is positioned, and the two
  steps keep the cursor in one.
\<close>

lemma cursor_state_init: "cursor_state MainWindow_init"
  by (simp add: cursor_state_def MainWindow_init_def)

lemma cursor_state_loadDonor: "cursor_state (loadDonor e db w i) = cursor_state w"
  by (simp add: cursor_state_def loadDonor_cursor)

lemma cursor_state_previous:
  assumes "cursor_state w" and "loadPreviousDonor e db w = Some w'"
  shows "cursor_state w'"
proof (cases "0 < currentDonorIndex w")
  case False
  then show ?thesis using assms by (simp add: loadPreviousDonor_def)
next
  case True
  with assms(1) have "cursor_state (w\<lparr>currentDonorIndex := currentDonorIndex w - 1\<rparr>)"
    by (auto simp add: cursor_state_def)
  with True assms(2) show ?thesis
    by (auto simp add: loadPreviousDonor_def Let_def cursor_state_loadDonor split: option.splits)
qed

lemma cursor_state_next:
  assumes "cursor_state w" and "loadNextDonor e db w = Some w'"
  shows "cursor_state w'"
proof (cases "size_t (currentDonorIndex w) < size_t (int (length (donorIds w)) - 1)")
  case False
  then show ?thesis using assms by (simp add: loadNextDonor_def)
next
  case True
  then have "currentDonorIndex w \<noteq> - 1 \<and> currentDonorIndex w < int (length (donorIds w)) - 1"
    using next_guard [OF assms(1)] by blast
  with assms(1) have "cursor_state (w\<lparr>currentDonorIndex := currentDonorIndex w + 1\<rparr>)"
    by (auto simp add: cursor_state_def)
  with True assms(2) show ?thesis
    by (auto simp add: loadNextDonor_def Let_def cursor_state_loadDonor split: option.splits)
qed

lemma cursor_state_refresh:
  assumes "currentDonorId w \<noteq> - 1 \<or> currentDonorIndex w = - 1"
    and "int (length (donors db)) < 2 ^ 31"
  shows "cursor_state (populateDonorIds e db w)"
proof -
  have "length (getAllDonorIds e db) \<le> length (donors db)"
    by (cases e) (simp_all add: getAllDonorIds_def donor_ids_def)
  then have bound: "int (length (getAllDonorIds e db)) < 2 ^ 31"
    using assms(2) by linarith
  show ?thesis
  proof (cases "currentDonorId w = - 1")
    case True
    with assms(1) have "currentDonorIndex (populateDonorIds e db w) = - 1"
      by (simp add: populate_unpositioned)
    then show ?thesis using bound by (simp add: cursor_state_def populate_keeps)
  next
    case False
    from populate_relocates [OF False, of e db] bound show ?thesis
      by (auto simp add: cursor_state_def populate_keeps split: if_splits)
  qed
qed

text \<open>
  Claim C6. In every cursor state (on no donor, or on a position of the sequence),
  \<^verbatim>\<open>loadPreviousDonor\<close> changes nothing unless the index is greater than 0, and then the
  index goes down by one; \<^verbatim>\<open>loadNextDonor\<close> changes nothing unless a donor is positioned
  at an index less than the length minus one, and then the index goes up by one. The
  sequence is never changed. After a refresh, stepping back at index 0 and stepping
  forward at the last index leave the state as it is.
\<close>

theorem navigation_steps:
  assumes "cursor_state w"
  shows "(\<not> 0 < currentDonorIndex w \<longrightarrow> loadPreviousDonor e db w = Some w) \<and>
    (0 < currentDonorIndex w \<longrightarrow>
       (\<exists>w'. loadPreviousDonor e db w = Some w' \<and>
             currentDonorIndex w' = currentDonorIndex w - 1 \<and> donorIds w' = donorIds w)) \<and>
    (\<not> (currentDonorIndex w \<noteq> - 1 \<and> currentDonorIndex w < int (length (donorIds w)) - 1) \<longrightarrow>
       loadNextDonor e db w = Some w) \<and>
    (currentDonorIndex w \<noteq> - 1 \<and> currentDonorIndex w < int (length (donorIds w)) - 1 \<longrightarrow>
       (\<exists>w'. loadNextDonor e db w = Some w' \<and>
             currentDonorIndex w' = currentDonorIndex w + 1 \<and> donorIds w' = donorIds w)) \<and>
    (currentDonorIndex (populateDonorIds e' db' w) = 0 \<longrightarrow>
       loadPreviousDonor e db (populateDonorIds e' db' w) = Some (populateDonorIds e' db' w)) \<and>
    (currentDonorIndex (populateDonorIds e' db' w) =
       int (length (donorIds (populateDonorIds e' db' w))) - 1 \<longrightarrow>
       loadNextDonor e db (populateDonorIds e' db' w) = Some (populateDonorIds e' db' w))"
proof -
  have range: "currentDonorIndex w = - 1 \<or>
      (0 \<le> currentDonorIndex w \<and> currentDonorIndex w < int (length (donorIds w)))"
    using assms by (simp add: cursor_state_def)
  have p0: "\<not> 0 < currentDonorIndex w \<longrightarrow> loadPreviousDonor e db w = Some w"
    by (simp add: loadPreviousDonor_def)
  have p1: "0 < currentDonorIndex w \<longrightarrow>
       (\<exists>w'. loadPreviousDonor e db w = Some w' \<and>
             currentDonorIndex w' = currentDonorIndex w - 1 \<and> donorIds w' = donorIds w)"
    using range by (auto simp add: loadPreviousDonor_def vector_at_def Let_def loadDonor_cursor)
  have n0: "\<not> (currentDonorIndex w \<noteq> - 1 \<and> currentDonorIndex w < int (length (donorIds w)) - 1) \<longrightarrow>
       loadNextDonor e db w = Some w"
    unfolding loadNextDonor_def next_guard [OF assms] by simp
  have n1: "currentDonorIndex w \<noteq> - 1 \<and> currentDonorIndex w < int (length (donorIds w)) - 1 \<longrightarrow>
       (\<exists>w'. loadNextDonor e db w = Some w' \<and>
             currentDonorIndex w' = currentDonorIndex w + 1 \<and> donorIds w' = donorIds w)"
  proof
    assume g: "currentDonorIndex w \<noteq> - 1 \<and> currentDonorIndex w < int (length (donorIds w)) - 1"
    then have guard: "size_t (currentDonorIndex w) < size_t (int (length (donorIds w)) - 1)"
      by (simp add: next_guard [OF assms])
    from g range have inside: "0 \<le> currentDonorIndex w + 1"
      "currentDonorIndex w + 1 < int (length (donorIds w))"
      by auto
    have "loadNextDonor e db w =
        Some (loadDonor e db (w\<lparr>currentDonorIndex := currentDonorIndex w + 1\<rparr>)
                (donorIds w ! nat (currentDonorIndex w + 1)))"
      using guard inside by (simp add: loadNextDonor_def vector_at_def Let_def)
    then show "\<exists>w'. loadNextDonor e db w = Some w' \<and>
        currentDonorIndex w' = currentDonorIndex w + 1 \<and> donorIds w' = donorIds w"
      by (simp add: loadDonor_cursor)
  qed
  have r0: "currentDonorIndex (populateDonorIds e' db' w) = 0 \<longrightarrow>
       loadPreviousDonor e db (populateDonorIds e' db' w) = Some (populateDonorIds e' db' w)"
    by (simp add: loadPreviousDonor_def)
  have r1: "currentDonorIndex (populateDonorIds e' db' w) =
       int (length (donorIds (populateDonorIds e' db' w))) - 1 \<longrightarrow>
       loadNextDonor e db (populateDonorIds e' db' w) = Some (populateDonorIds e' db' w)"
    by (simp add: loadNextDonor_def)
  show ?thesis using p0 p1 n0 n1 r0 r1 by blast
qed

theorem navigation_steps_witness:
  "cursor_state nav_none \<and> cursor_state nav_on_ann \<and> cursor_state nav_on_bob \<and>
   loadPreviousDonor Healthy two_gave nav_none = Some nav_none \<and>
   loadNextDonor Healthy two_gave nav_none = Some nav_none \<and>
   loadPreviousDonor Healthy two_gave nav_on_ann = Some nav_on_ann \<and>
   loadNextDonor Healthy two_gave nav_on_ann = Some nav_on_bob \<and>
   loadPreviousDonor Healthy two_gave nav_on_bob = Some nav_on_ann \<and>
   loadNextDonor Healthy two_gave nav_on_bob = Some nav_on_bob"
proof -
  have cs: "cursor_state nav_none" "cursor_state nav_on_ann" "cursor_state nav_on_bob"
    by (simp_all add: cursor_state_def nav_none_def nav_on_ann_def nav_on_bob_def)
  show ?thesis
    using cs navigation_steps [OF cs(1), of Healthy two_gave]
      navigation_steps [OF cs(2), of Healthy two_gave]
      navigation_steps [OF cs(3), of Healthy two_gave]
    by (simp add: loadPreviousDonor_def loadNextDonor_def loadDonor_def getDonorDetails_def
        vector_at_def size_t_def nav_none_def nav_on_ann_def nav_on_bob_def sample_defs)
qed

end
